theory Spec2Isabelle
  imports Main "HOL-Library.Sublist"
begin

section \<open>The Resend mail client (tools/mailer/resend.go)\<close>

text \<open>
  A Go string and a Go byte slice are both sequences of bytes; an Isabelle \<open>char\<close> is one
  byte, so both are modelled as \<open>string\<close>. A Go \<open>error\<close> value is modelled by the text
  its \<open>Error()\<close> method returns; a \<open>nil\<close> error is \<open>None\<close>.
\<close>

type_synonym bytes = string
type_synonym error = string

subsection \<open>Data model\<close>

text \<open>\<open>net/mail.Address\<close>.\<close>

record mail_Address =
  Name :: string
  Address :: string

text \<open>
  An \<open>io.Reader\<close>: the bytes the stream delivers, and how it ends (\<open>None\<close> for a clean
  end of file, \<open>Some e\<close> for a read error after those bytes).
\<close>

datatype Reader = Reader (readerData: bytes) (readerErr: "error option")

text \<open>
  \<open>mailer.Message\<close>. The three Go maps are association lists with distinct keys; the
  order of a list is the order in which \<open>range\<close> happens to visit the map in the run
  considered.
\<close>

record Message =
  From :: mail_Address
  To :: "mail_Address list"
  Bcc :: "mail_Address list"
  Cc :: "mail_Address list"
  Subject :: string
  HTML :: string
  Text :: string
  Headers :: "(string \<times> string) list"
  Attachments :: "(string \<times> Reader) list"
  InlineAttachments :: "(string \<times> Reader) list"

record SendEvent =
  Message :: Message

record resendAttachment =
  Filename :: string
  Content :: string
  ContentType :: string

text \<open>
  \<open>resendPayload\<close>; the fields carry a prefix because \<open>Message\<close> has fields of the same
  names. A \<open>nil\<close> slice is the empty list and a \<open>nil\<close> map the empty map (with
  \<open>omitempty\<close> the two serialise alike).
\<close>

record resendPayload =
  pFrom :: string
  pTo :: "string list"
  pCc :: "string list"
  pBcc :: "string list"
  pSubject :: string
  pHTML :: string
  pText :: string
  pHeaders :: "string \<rightharpoonup> string"
  pAttachments :: "resendAttachment list"

record resendErrorResponse =
  errStatusCode :: int
  errMessage :: string
  errName :: string

text \<open>\<open>net/http\<close>: the request that is issued and the response that comes back.\<close>

record Request =
  Method :: string
  URL :: string
  Header :: "string \<rightharpoonup> string"
  Body :: bytes

record Response =
  StatusCode :: int
  respBody :: Reader

text \<open>
  What \<open>send\<close> calls outside this file. The helpers of the mailer package
  (\<open>addressesToStrings\<close>, \<open>html2Text\<close>, \<open>detectReaderMimeType\<close>), the token generator
  \<open>security.PseudorandomString\<close> and the library calls whose result depends on the outside
  world or on a serialisation format are parameters of the model.
\<close>

record env =
  addressString :: "mail_Address \<Rightarrow> string"
  addressesToStrings :: "mail_Address list \<Rightarrow> bool \<Rightarrow> string list"
  html2Text :: "string \<Rightarrow> error + string"
  detectReaderMimeType :: "Reader \<Rightarrow> error + (Reader \<times> string)"
  PseudorandomString :: "nat \<Rightarrow> string"
  jsonMarshal :: "resendPayload \<Rightarrow> error + bytes"
  NewRequest :: "string \<Rightarrow> string \<Rightarrow> bytes \<Rightarrow> error + Request"
  clientDo :: "Request \<Rightarrow> error + Response"
  jsonUnmarshal :: "bytes \<Rightarrow> error + resendErrorResponse"

text \<open>The network as \<open>send\<close> sees it: the requests handed to the HTTP client so far.\<close>

type_synonym world = "Request list"

subsection \<open>Library functions with a fixed meaning\<close>

text \<open>\<open>io.ReadAll\<close>: the bytes read and the error that stopped the reading, if any.\<close>

definition ReadAll :: "Reader \<Rightarrow> bytes \<times> error option" where
  "ReadAll r = (readerData r, readerErr r)"

text \<open>
  \<open>strings.Split(s, sep)\<close> for a separator of one byte: the pieces between the
  separators, so one piece more than there are separators.
\<close>

fun Split :: "string \<Rightarrow> char \<Rightarrow> string list" where
  "Split [] sep = [[]]"
| "Split (c # cs) sep =
     (if c = sep then [] # Split cs sep
      else (case Split cs sep of
              [] \<Rightarrow> [[c]]
            | p # ps \<Rightarrow> (c # p) # ps))"

text \<open>
  \<open>strings.EqualFold(s, t)\<close> for an ASCII \<open>t\<close> (the code calls it with the constant
  \<open>"Message-ID"\<close> only). Two ASCII bytes match when they are equal or the two cases of
  one letter. A rune of \<open>s\<close> beyond ASCII matches an ASCII byte only through Unicode
  simple case folding, which relates U+017F (bytes C5 BF) to \<open>s\<close>/\<open>S\<close> and U+212A
  (bytes E2 84 AA) to \<open>k\<close>/\<open>K\<close> and no other rune to an ASCII letter.
\<close>

definition asciiFold :: "char \<Rightarrow> char \<Rightarrow> bool" where
  "asciiFold a b =
     (let sr = min (of_char a) (of_char b) :: nat; tr = max (of_char a) (of_char b) in
      tr = sr \<or> (65 \<le> sr \<and> sr \<le> 90 \<and> tr = sr + 32))"

fun EqualFold :: "string \<Rightarrow> string \<Rightarrow> bool" where
  "EqualFold [] [] = True"
| "EqualFold [] (b # t) = False"
| "EqualFold (a # s) [] = False"
| "EqualFold (a # s) (b # t) =
     (if (of_char a :: nat) < 128 then asciiFold a b \<and> EqualFold s t
      else (case s of
              [] \<Rightarrow> False
            | a2 # s2 \<Rightarrow>
                if (of_char a :: nat) = 197 \<and> (of_char a2 :: nat) = 191
                then (b = CHR ''s'' \<or> b = CHR ''S'') \<and> EqualFold s2 t
                else (case s2 of
                        [] \<Rightarrow> False
                      | a3 # s3 \<Rightarrow>
                          if (of_char a :: nat) = 226 \<and> (of_char a2 :: nat) = 132
                               \<and> (of_char a3 :: nat) = 170
                          then (b = CHR ''k'' \<or> b = CHR ''K'') \<and> EqualFold s3 t
                          else False)))"

text \<open>\<open>fmt\<close>'s \<open>%d\<close> verb for an \<open>int\<close>: decimal digits, with a minus sign when negative.\<close>

definition digit :: "nat \<Rightarrow> char" where
  "digit d = ''0123456789'' ! d"

fun decimal :: "nat \<Rightarrow> string" where
  "decimal n = (if n < 10 then [digit n] else decimal (n div 10) @ [digit (n mod 10)])"

declare decimal.simps [simp del]

definition fmt_d :: "int \<Rightarrow> string" where
  "fmt_d i = (if i < 0 then CHR ''-'' # decimal (nat (- i)) else decimal (nat i))"

text \<open>
  \<open>base64.StdEncoding.EncodeToString\<close>: three bytes make a 24-bit value that is cut
  into four 6-bit indices into the alphabet; a rest of one or two bytes is padded with
  \<open>=\<close>. A shift right by \<open>k\<close> followed by \<open>& 0x3F\<close> is \<open>div 2 ^ k mod 64\<close>.
\<close>

definition encodeStd :: string where
  "encodeStd = ''ABCDEFGHIJKLMNOPQRSTUVWXYZabcdefghijklmnopqrstuvwxyz0123456789+/''"

definition enc6 :: "nat \<Rightarrow> char" where
  "enc6 v = encodeStd ! (v mod 64)"

fun EncodeToString :: "bytes \<Rightarrow> string" where
  "EncodeToString [] = []"
| "EncodeToString [a] =
     (let val = of_char a * 65536 :: nat in
      [enc6 (val div 262144), enc6 (val div 4096), CHR ''='', CHR ''=''])"
| "EncodeToString [a, b] =
     (let val = of_char a * 65536 + of_char b * 256 :: nat in
      [enc6 (val div 262144), enc6 (val div 4096), enc6 (val div 64), CHR ''=''])"
| "EncodeToString (a # b # c # rest) =
     (let val = of_char a * 65536 + of_char b * 256 + of_char c :: nat in
      [enc6 (val div 262144), enc6 (val div 4096), enc6 (val div 64), enc6 val]
        @ EncodeToString rest)"

text \<open>
  The reference decoder of RFC 4648 section 4, against which "valid base64" is
  measured: groups of four alphabet characters, padding only in the last group, and no
  stray bits under the padding. \<open>None\<close> means the text is not valid base64.
\<close>

definition dec6 :: "char \<Rightarrow> nat option" where
  "dec6 ch =
     (let n = of_char ch :: nat in
      if 65 \<le> n \<and> n \<le> 90 then Some (n - 65)
      else if 97 \<le> n \<and> n \<le> 122 then Some (n - 71)
      else if 48 \<le> n \<and> n \<le> 57 then Some (n + 4)
      else if n = 43 then Some 62
      else if n = 47 then Some 63
      else None)"

fun DecodeString :: "string \<Rightarrow> bytes option" where
  "DecodeString [] = Some []"
| "DecodeString (c1 # c2 # c3 # c4 # rest) =
     (case (dec6 c1, dec6 c2) of
        (Some s1, Some s2) \<Rightarrow>
          if c4 = CHR ''='' then
            (if rest \<noteq> [] then None
             else if c3 = CHR ''='' then
               (if s2 mod 16 = 0 then Some [char_of (s1 * 4 + s2 div 16)] else None)
             else (case dec6 c3 of
                     Some s3 \<Rightarrow>
                       if s3 mod 4 = 0
                       then Some [char_of (s1 * 4 + s2 div 16),
                                  char_of ((s2 mod 16) * 16 + s3 div 4)]
                       else None
                   | None \<Rightarrow> None))
          else (case (dec6 c3, dec6 c4, DecodeString rest) of
                  (Some s3, Some s4, Some out) \<Rightarrow>
                    (let val = s1 * 262144 + s2 * 4096 + s3 * 64 + s4 in
                     Some (char_of (val div 65536) # char_of (val div 256) # char_of val # out))
                | _ \<Rightarrow> None)
      | _ \<Rightarrow> None)"
| "DecodeString _ = None"

subsection \<open>The hook of tools/hook\<close>

text \<open>
  Modelled from the spec: the generic hook library (\<open>hook.Hook\<close> and its \<open>Trigger\<close>)
  is not part of the sources at hand. The specification of the send-interception hook
  says that each observer, in registration order, may inspect or mutate the event's
  message and then either call the next observer or return without forwarding, in which
  case its result is the result of the whole call. So an observer maps the event to
  \<open>Next\<close> of the event it forwards or to \<open>Return\<close> of its result, and a hook is the
  list of its observers in registration order.
\<close>

datatype handlerResult = Next SendEvent | Return "error option"

type_synonym Handler = "SendEvent \<Rightarrow> handlerResult"

type_synonym Hook = "Handler list"

text \<open>
  Modelled from the spec: \<open>Trigger\<close> runs the observers in order; the terminal function
  is the last link of the chain and runs only if every observer has forwarded.
\<close>

fun Trigger ::
  "Hook \<Rightarrow> SendEvent \<Rightarrow> (SendEvent \<Rightarrow> world \<Rightarrow> error option \<times> world) \<Rightarrow> world
     \<Rightarrow> error option \<times> world" where
  "Trigger [] e terminal w = terminal e w"
| "Trigger (h # hs) e terminal w =
     (case h e of
        Next e' \<Rightarrow> Trigger hs e' terminal w
      | Return r \<Rightarrow> (r, w))"

text \<open>
  The event that reaches the end of a chain of observers: \<open>Some\<close> of it when every
  observer forwards, \<open>None\<close> when one of them returns without forwarding.
\<close>

fun forwarded :: "Hook \<Rightarrow> SendEvent \<Rightarrow> SendEvent option" where
  "forwarded [] e = Some e"
| "forwarded (h # hs) e =
     (case h e of
        Next e' \<Rightarrow> forwarded hs e'
      | Return r \<Rightarrow> None)"

subsection \<open>The client\<close>

definition resendAPIEndpoint :: string where
  "resendAPIEndpoint = ''https://api.resend.com/emails''"

record ResendClient =
  onSend :: "Hook option"
  APIKey :: string

text \<open>\<open>OnSend\<close> creates the hook on first use; the client is returned with it.\<close>

definition OnSend :: "ResendClient \<Rightarrow> Hook \<times> ResendClient" where
  "OnSend c =
     (case onSend c of
        None \<Rightarrow> ([], c\<lparr>onSend := Some []\<rparr>)
      | Some h \<Rightarrow> (h, c))"

text \<open>\<open>prepareAttachment\<close> (lines 190 to 211).\<close>

definition prepareAttachment :: "env \<Rightarrow> string \<Rightarrow> Reader \<Rightarrow> error + resendAttachment" where
  "prepareAttachment env name data =
     (case detectReaderMimeType env data of
        Inl err \<Rightarrow> Inl err
      | Inr (r, mimeType) \<Rightarrow>
          (case ReadAll r of
             (content, Some err) \<Rightarrow> Inl err
           | (content, None) \<Rightarrow>
               Inr \<lparr>Filename = name, Content = EncodeToString content,
                    ContentType = mimeType\<rparr>))"

text \<open>
  Reading or sniffing the stream of an attachment fails: \<open>detectReaderMimeType\<close>
  returns an error, or \<open>io.ReadAll\<close> on the stream it hands back does.
\<close>

definition streamFails :: "env \<Rightarrow> Reader \<Rightarrow> bool" where
  "streamFails env data =
     (case detectReaderMimeType env data of
        Inl err \<Rightarrow> True
      | Inr (r, mimeType) \<Rightarrow> snd (ReadAll r) \<noteq> None)"

text \<open>
  The two attachment loops of \<open>send\<close> (lines 132 to 151) differ in the map they range
  over and in one word of the error text, here \<open>what\<close>. The loop appends to the
  payload's attachment list and leaves at the first attachment that cannot be prepared.
\<close>

fun appendAttachments ::
  "env \<Rightarrow> string \<Rightarrow> (string \<times> Reader) list \<Rightarrow> resendAttachment list
     \<Rightarrow> error + resendAttachment list" where
  "appendAttachments env what [] attachments = Inr attachments"
| "appendAttachments env what ((name, data) # rest) attachments =
     (case prepareAttachment env name data of
        Inl err \<Rightarrow> Inl (''failed to prepare '' @ what @ '' '' @ name @ '': '' @ err)
      | Inr attachment \<Rightarrow> appendAttachments env what rest (attachments @ [attachment]))"

text \<open>The loop over the custom headers (lines 113 to 118).\<close>

fun copyHeaders ::
  "(string \<times> string) list \<Rightarrow> (string \<rightharpoonup> string) \<Rightarrow> bool \<Rightarrow> (string \<rightharpoonup> string) \<times> bool" where
  "copyHeaders [] headers hasMessageId = (headers, hasMessageId)"
| "copyHeaders ((k, v) # rest) headers hasMessageId =
     copyHeaders rest (headers(k \<mapsto> v))
       (if EqualFold k ''Message-ID'' then True else hasMessageId)"

text \<open>The header block of \<open>send\<close> (lines 110 to 129).\<close>

definition payloadHeaders :: "env \<Rightarrow> Message \<Rightarrow> (string \<rightharpoonup> string)" where
  "payloadHeaders env m =
     (if length (Headers m) > 0 then
        (case copyHeaders (Headers m) Map.empty False of
           (headers, hasMessageId) \<Rightarrow>
             if \<not> hasMessageId then
               (let fromParts = Split (Address (From m)) CHR ''@'' in
                if length fromParts = 2
                then headers(''Message-ID'' \<mapsto>
                       ''<'' @ PseudorandomString env 15 @ ''@'' @ fromParts ! 1 @ ''>'')
                else headers)
             else headers)
      else Map.empty)"

text \<open>
  The construction of the payload (lines 81 to 151): \<open>Inl\<close> is the error \<open>send\<close>
  returns from inside an attachment loop, \<open>Inr\<close> the payload that goes on to be
  serialised.
\<close>

definition buildPayload :: "env \<Rightarrow> Message \<Rightarrow> error + resendPayload" where
  "buildPayload env m =
     (let payload = \<lparr>pFrom = addressString env (From m),
                     pTo = addressesToStrings env (To m) True,
                     pCc = [], pBcc = [],
                     pSubject = Subject m,
                     pHTML = HTML m,
                     pText = [], pHeaders = Map.empty, pAttachments = []\<rparr>;
          payload = (if Text m = [] then
                       (case html2Text env (HTML m) of
                          Inr plain \<Rightarrow> payload\<lparr>pText := plain\<rparr>
                        | Inl err \<Rightarrow> payload)
                     else payload\<lparr>pText := Text m\<rparr>);
          payload = (if length (Cc m) > 0
                     then payload\<lparr>pCc := addressesToStrings env (Cc m) True\<rparr>
                     else payload);
          payload = (if length (Bcc m) > 0
                     then payload\<lparr>pBcc := addressesToStrings env (Bcc m) True\<rparr>
                     else payload);
          payload = payload\<lparr>pHeaders := payloadHeaders env m\<rparr>
      in case appendAttachments env ''attachment'' (Attachments m) (pAttachments payload) of
           Inl err \<Rightarrow> Inl err
         | Inr attachments \<Rightarrow>
             (case appendAttachments env ''inline attachment'' (InlineAttachments m) attachments of
                Inl err \<Rightarrow> Inl err
              | Inr attachments' \<Rightarrow> Inr (payload\<lparr>pAttachments := attachments'\<rparr>)))"

text \<open>The text of \<open>fmt.Errorf("resend API error (%d): %s", code, detail)\<close>.\<close>

definition apiError :: "int \<Rightarrow> string \<Rightarrow> error" where
  "apiError code detail = ''resend API error ('' @ fmt_d code @ ''): '' @ detail"

text \<open>The check of the response status (lines 177 to 186).\<close>

definition checkResponse :: "env \<Rightarrow> Response \<Rightarrow> error option" where
  "checkResponse env resp =
     (if StatusCode resp < 200 \<or> StatusCode resp \<ge> 300 then
        (let body = fst (ReadAll (respBody resp)) in
         case jsonUnmarshal env body of
           Inr errResp \<Rightarrow>
             if errMessage errResp \<noteq> []
             then Some (apiError (StatusCode resp) (errMessage errResp))
             else Some (apiError (StatusCode resp) body)
         | Inl err \<Rightarrow> Some (apiError (StatusCode resp) body))
      else None)"

text \<open>The two \<open>req.Header.Set\<close> calls (lines 165 and 166).\<close>

definition setHeaders :: "ResendClient \<Rightarrow> Request \<Rightarrow> Request" where
  "setHeaders c req =
     req\<lparr>Header := (Header req)
            (''Authorization'' \<mapsto> ''Bearer '' @ APIKey c,
             ''Content-Type'' \<mapsto> ''application/json'')\<rparr>"

text \<open>
  Serialisation, request and response (lines 153 to 186). The request is added to the
  world when it is handed to the HTTP client, whether or not an answer comes back.
\<close>

definition transmit :: "env \<Rightarrow> ResendClient \<Rightarrow> resendPayload \<Rightarrow> world \<Rightarrow> error option \<times> world" where
  "transmit env c payload w =
     (case jsonMarshal env payload of
        Inl err \<Rightarrow> (Some (''failed to marshal resend payload: '' @ err), w)
      | Inr jsonPayload \<Rightarrow>
          (case NewRequest env ''POST'' resendAPIEndpoint jsonPayload of
             Inl err \<Rightarrow> (Some (''failed to create resend request: '' @ err), w)
           | Inr req0 \<Rightarrow>
               (let req = setHeaders c req0
                in case clientDo env req of
                     Inl err \<Rightarrow> (Some (''failed to send resend request: '' @ err), w @ [req])
                   | Inr resp \<Rightarrow> (checkResponse env resp, w @ [req]))))"

text \<open>\<open>send\<close> (lines 76 to 187).\<close>

definition send :: "env \<Rightarrow> ResendClient \<Rightarrow> Message \<Rightarrow> world \<Rightarrow> error option \<times> world" where
  "send env c m w =
     (if APIKey c = [] then (Some ''resend API key is required'', w)
      else (case buildPayload env m of
              Inl err \<Rightarrow> (Some err, w)
            | Inr payload \<Rightarrow> transmit env c payload w))"

text \<open>\<open>Send\<close> (lines 39 to 47).\<close>

definition Send :: "env \<Rightarrow> ResendClient \<Rightarrow> Message \<Rightarrow> world \<Rightarrow> error option \<times> world" where
  "Send env c m w =
     (case onSend c of
        Some hook \<Rightarrow> Trigger hook \<lparr>Message = m\<rparr> (\<lambda>e. send env c (Message e)) w
      | None \<Rightarrow> send env c m w)"

text \<open>
  The message that reaches \<open>send\<close> when \<open>Send\<close> is called with \<open>m\<close>: \<open>m\<close> itself
  without a hook, the message of the event at the end of the chain with one, and none
  when an observer returns without forwarding.
\<close>

definition terminalMessage :: "ResendClient \<Rightarrow> Message \<Rightarrow> Message option" where
  "terminalMessage c m =
     (case onSend c of
        None \<Rightarrow> Some m
      | Some hook \<Rightarrow> map_option Message (forwarded hook \<lparr>Message = m\<rparr>))"

subsection \<open>An example environment and example messages\<close>

text \<open>
  One possible outside world, used to run the definitions on concrete inputs. Its
  server accepts the key \<open>re_test_key\<close> and answers every other key with 401, as the
  scenarios of the package's test do; its attachment helper fails exactly when the
  stream fails; its token generator returns as many characters as it is asked for.
\<close>

definition exAddress :: "mail_Address \<Rightarrow> string" where
  "exAddress a = (if Name a = [] then Address a else Name a @ '' <'' @ Address a @ ''>'')"

definition exUnauthorized :: bytes where
  "exUnauthorized = ''{\"statusCode\": 401, \"message\": \"Invalid API key\", \"name\": \"unauthorized\"}''"

definition exEnv :: env where
  "exEnv =
     \<lparr>addressString = exAddress,
      addressesToStrings = (\<lambda>as withName. map exAddress as),
      html2Text = (\<lambda>h. if h = ''<p>Hi</p>'' then Inr ''Hi'' else Inl ''html2text: unsupported markup''),
      detectReaderMimeType =
        (\<lambda>r. case readerErr r of
               Some err \<Rightarrow> Inl err
             | None \<Rightarrow> Inr (r, ''text/plain; charset=utf-8'')),
      PseudorandomString = (\<lambda>n. take n ''k3XbT9qLm2VzR7cJw5YdH8pN''),
      jsonMarshal = (\<lambda>p. Inr (''{\"from\":\"'' @ pFrom p @ ''\",\"subject\":\"'' @ pSubject p @ ''\"}'')),
      NewRequest = (\<lambda>method url body.
                     Inr \<lparr>Method = method, URL = url, Header = Map.empty, Body = body\<rparr>),
      clientDo =
        (\<lambda>req. if Header req ''Authorization'' = Some ''Bearer re_test_key''
               then Inr \<lparr>StatusCode = 200, respBody = Reader ''{\"id\": \"test-id\"}'' None\<rparr>
               else Inr \<lparr>StatusCode = 401, respBody = Reader exUnauthorized None\<rparr>),
      jsonUnmarshal =
        (\<lambda>body. if body = exUnauthorized
                then Inr \<lparr>errStatusCode = 401, errMessage = ''Invalid API key'',
                          errName = ''unauthorized''\<rparr>
                else Inl ''json: cannot unmarshal'')\<rparr>"

text \<open>The message of the specification's concrete scenario: an HTML body, no headers.\<close>

definition exMessage :: Message where
  "exMessage =
     \<lparr>From = \<lparr>Name = ''Test'', Address = ''test@example.com''\<rparr>,
      To = [\<lparr>Name = [], Address = ''r@example.com''\<rparr>],
      Bcc = [], Cc = [],
      Subject = ''S'', HTML = ''<p>Hi</p>'', Text = [],
      Headers = [], Attachments = [], InlineAttachments = []\<rparr>"

text \<open>The same message with one custom header, as in the test "with custom headers".\<close>

definition exWithHeader :: Message where
  "exWithHeader = exMessage\<lparr>Headers := [(''X-Custom-Header'', ''custom-value'')]\<rparr>"

text \<open>A message with a plain text body, as in the test "plain text fallback".\<close>

definition exPlain :: Message where
  "exPlain = exMessage\<lparr>Text := ''Plain text content'', HTML := []\<rparr>"

text \<open>
  A sender address with two \<open>@\<close>, and one with none whose HTML body the example
  converter rejects.
\<close>

definition exTwoAts :: Message where
  "exTwoAts = exWithHeader\<lparr>From := \<lparr>Name = ''Test'', Address = ''a@b@example.com''\<rparr>\<rparr>"

definition exNoAt :: Message where
  "exNoAt = exWithHeader\<lparr>From := \<lparr>Name = ''Test'', Address = ''localhost''\<rparr>, HTML := ''<table>''\<rparr>"

text \<open>
  One regular and one inline attachment that read to the end, and a message whose
  inline attachment breaks off with an error.
\<close>

definition exAttached :: Message where
  "exAttached =
     exMessage\<lparr>Attachments := [(''test.txt'', Reader ''test content'' None)],
               InlineAttachments := [(''logo.png'', Reader ''PNG'' None)]\<rparr>"

definition exBroken :: Message where
  "exBroken =
     exMessage\<lparr>Attachments := [(''test.txt'', Reader ''test content'' None)],
               InlineAttachments := [(''logo.png'', Reader ''PN'' (Some ''unexpected EOF''))]\<rparr>"

text \<open>Clients: with and without a key, with and without observers.\<close>

definition exClient :: ResendClient where
  "exClient = \<lparr>onSend = None, APIKey = ''re_test_key''\<rparr>"

definition exInvalidKey :: ResendClient where
  "exInvalidKey = \<lparr>onSend = None, APIKey = ''re_invalid_key''\<rparr>"


definition tagSubject :: Handler where
  "tagSubject e = Next (e\<lparr>Message := (Message e)\<lparr>Subject := ''[test] '' @ Subject (Message e)\<rparr>\<rparr>)"

definition blockAll :: Handler where
  "blockAll e = Return (Some ''sending is disabled'')"


definition exBlocked :: ResendClient where
  "exBlocked = \<lparr>onSend = Some [tagSubject, blockAll], APIKey = ''re_test_key''\<rparr>"

definition exNoKeyBlocked :: ResendClient where
  "exNoKeyBlocked = \<lparr>onSend = Some [tagSubject, blockAll], APIKey = []\<rparr>"


text \<open>The payload, the serialised body and the request of \<open>exMessage\<close> in \<open>exEnv\<close>.\<close>

definition exPayload :: resendPayload where
  "exPayload =
     \<lparr>pFrom = ''Test <test@example.com>'', pTo = [''r@example.com''], pCc = [], pBcc = [],
      pSubject = ''S'', pHTML = ''<p>Hi</p>'', pText = ''Hi'', pHeaders = Map.empty,
      pAttachments = []\<rparr>"

definition exJson :: bytes where
  "exJson = ''{\"from\":\"Test <test@example.com>\",\"subject\":\"S\"}''"

definition exRequest :: Request where
  "exRequest = \<lparr>Method = ''POST'', URL = resendAPIEndpoint, Header = Map.empty, Body = exJson\<rparr>"

section \<open>Properties of the library functions\<close>

subsection \<open>Base64: decoding undoes encoding\<close>

text \<open>
  Every index below 64 is mapped to a character of the alphabet that the decoder maps
  back, and never to the padding character.
\<close>

lemma dec6_enc6_all: "\<forall>n \<in> set [0..<64]. dec6 (enc6 n) = Some n \<and> enc6 n \<noteq> CHR ''=''"
  by (simp add: upt_rec enc6_def dec6_def encodeStd_def)

lemma enc6_mod: "enc6 (n mod 64) = enc6 n"
  by (simp add: enc6_def)

lemma dec6_enc6: "dec6 (enc6 n) = Some (n mod 64)"
proof -
  have "n mod 64 \<in> set [0..<64]" by simp
  then have "dec6 (enc6 (n mod 64)) = Some (n mod 64)"
    using dec6_enc6_all by blast
  then show ?thesis by (simp add: enc6_mod)
qed

lemma enc6_not_pad: "enc6 n \<noteq> CHR ''=''"
proof -
  have "n mod 64 \<in> set [0..<64]" by simp
  then have "enc6 (n mod 64) \<noteq> CHR ''=''"
    using dec6_enc6_all by blast
  then show ?thesis by (simp add: enc6_mod)
qed


lemma mod_decomp: "n = r + m * k \<Longrightarrow> r < m \<Longrightarrow> n mod m = (r::nat)"
  by simp

lemma sextets:
  fixes x y z :: nat
  assumes "x < 256" "y < 256" "z < 256"
  defines "v \<equiv> x * 65536 + y * 256 + z"
  shows s1: "v div 262144 mod 64 = x div 4"
    and s2: "v div 4096 mod 64 = x mod 4 * 16 + y div 16"
    and s3: "v div 64 mod 64 = y mod 16 * 4 + z div 64"
    and s4: "v mod 64 = z mod 64"
proof -
  have d1: "v div 262144 = x div 4" using assms by linarith
  have d2: "v div 4096 = x * 16 + y div 16" using assms by linarith
  have d3: "v div 64 = x * 1024 + y * 4 + z div 64" using assms by linarith
  show "v div 262144 mod 64 = x div 4" using assms d1 by simp
  show "v div 4096 mod 64 = x mod 4 * 16 + y div 16"
    unfolding d2
  proof (rule mod_decomp [where k = "x div 4"])
    define a b where "a = x div 4" and "b = x mod 4"
    have "x = a * 4 + b" by (simp add: a_def b_def)
    then have "x * 16 + y div 16 = b * 16 + y div 16 + 64 * a" by simp
    then show "x * 16 + y div 16 = x mod 4 * 16 + y div 16 + 64 * (x div 4)"
      by (simp only: a_def b_def)
    show "x mod 4 * 16 + y div 16 < 64" using assms by linarith
  qed
  show "v div 64 mod 64 = y mod 16 * 4 + z div 64"
    unfolding d3
  proof (rule mod_decomp [where k = "x * 16 + y div 16"])
    define c d where "c = y div 16" and "d = y mod 16"
    have "y = c * 16 + d" by (simp add: c_def d_def)
    then have "x * 1024 + y * 4 + z div 64 = d * 4 + z div 64 + 64 * (x * 16 + c)" by simp
    then show "x * 1024 + y * 4 + z div 64 = y mod 16 * 4 + z div 64 + 64 * (x * 16 + y div 16)"
      by (simp only: c_def d_def)
    show "y mod 16 * 4 + z div 64 < 64" using assms by linarith
  qed
  show "v mod 64 = z mod 64"
  proof (rule mod_decomp [where k = "x * 1024 + y * 4 + z div 64"])
    define e f where "e = z div 64" and "f = z mod 64"
    have "z = e * 64 + f" by (simp add: e_def f_def)
    then have "x * 65536 + y * 256 + z = f + 64 * (x * 1024 + y * 4 + e)" by simp
    then show "v = z mod 64 + 64 * (x * 1024 + y * 4 + z div 64)"
      by (simp only: e_def f_def v_def)
    show "z mod 64 < 64" by simp
  qed
qed

lemma regroup:
  fixes x y z :: nat
  shows "x div 4 * 262144 + (x mod 4 * 16 + y div 16) * 4096 + (y mod 16 * 4 + z div 64) * 64 + z mod 64
         = x * 65536 + y * 256 + z"
proof -
  define a b c d e f where "a = x div 4" and "b = x mod 4" and "c = y div 16"
    and "d = y mod 16" and "e = z div 64" and "f = z mod 64"
  have "x = a * 4 + b" "y = c * 16 + d" "z = e * 64 + f"
    by (simp_all add: a_def b_def c_def d_def e_def f_def)
  then have "a * 262144 + (b * 16 + c) * 4096 + (d * 4 + e) * 64 + f = x * 65536 + y * 256 + z"
    by simp
  then show ?thesis
    by (simp only: a_def b_def c_def d_def e_def f_def)
qed

lemma bytes_back:
  fixes x y z :: nat
  assumes "x < 256" "y < 256" "z < 256"
  defines "v \<equiv> x * 65536 + y * 256 + z"
  shows "v div 65536 = x" and "v div 256 mod 256 = y" and "v mod 256 = z"
proof -
  show "v div 65536 = x" using assms by linarith
  have "v div 256 = x * 256 + y" using assms by linarith
  then show "v div 256 mod 256 = y" using assms by simp
  show "v mod 256 = z"
    by (rule mod_decomp [where k = "x * 256 + y"]) (use assms in simp_all)
qed

lemma tail2:
  fixes x y :: nat
  assumes "y < 256"
  shows "x div 4 * 4 + (x mod 4 * 16 + y div 16) div 16 = x"
    and "(x mod 4 * 16 + y div 16) mod 16 * 16 + (y mod 16 * 4) div 4 = y"
    and "(y mod 16 * 4) mod 4 = 0"
proof -
  have a: "(x mod 4 * 16 + y div 16) div 16 = x mod 4" using assms by linarith
  show "x div 4 * 4 + (x mod 4 * 16 + y div 16) div 16 = x" unfolding a by simp
  have b: "(x mod 4 * 16 + y div 16) mod 16 = y div 16"
    by (rule mod_decomp [where k = "x mod 4"]) (use assms in simp_all)
  show "(x mod 4 * 16 + y div 16) mod 16 * 16 + (y mod 16 * 4) div 4 = y" unfolding b by simp
  show "(y mod 16 * 4) mod 4 = 0" by simp
qed


lemma decode_full_group:
  "DecodeString (enc6 p # enc6 q # enc6 r # enc6 s # rest) =
     (case DecodeString rest of
        None \<Rightarrow> None
      | Some out \<Rightarrow>
          (let val = p mod 64 * 262144 + q mod 64 * 4096 + r mod 64 * 64 + s mod 64 in
           Some (char_of (val div 65536) # char_of (val div 256) # char_of val # out)))"
  by (simp add: dec6_enc6 enc6_not_pad split: option.split)

lemma decode_pad1:
  "DecodeString [enc6 p, enc6 q, enc6 r, CHR ''=''] =
     (if r mod 64 mod 4 = 0
      then Some [char_of (p mod 64 * 4 + q mod 64 div 16),
                 char_of (q mod 64 mod 16 * 16 + r mod 64 div 4)]
      else None)"
  by (simp add: dec6_enc6 enc6_not_pad)

lemma decode_pad2:
  "DecodeString [enc6 p, enc6 q, CHR ''='', CHR ''=''] =
     (if q mod 64 mod 16 = 0 then Some [char_of (p mod 64 * 4 + q mod 64 div 16)] else None)"
  by (simp add: dec6_enc6 enc6_not_pad)

lemma DecodeString_EncodeToString: "DecodeString (EncodeToString bs) = Some bs"
proof (induction bs rule: EncodeToString.induct)
  case 1
  show ?case by simp
next
  case (2 a)
  define x :: nat where "x = of_char a"
  define v where "v = x * 65536 + 0 * 256 + (0::nat)"
  have enc: "EncodeToString [a] = [enc6 (v div 262144), enc6 (v div 4096), CHR ''='', CHR ''='']"
    by (simp add: v_def x_def Let_def)
  have lt: "x < 256" "(0::nat) < 256" "(0::nat) < 256" by (simp_all add: x_def)
  have p: "v div 262144 mod 64 = x div 4"
    and q: "v div 4096 mod 64 = x mod 4 * 16"
    unfolding v_def using s1 [OF lt] s2 [OF lt] by simp_all
  show ?case
    unfolding enc decode_pad2 p q by (simp add: x_def)
next
  case (3 a b)
  define x y :: nat where "x = of_char a" and "y = of_char b"
  define v where "v = x * 65536 + y * 256 + (0::nat)"
  have lt: "x < 256" "y < 256" "(0::nat) < 256" by (simp_all add: x_def y_def)
  have enc: "EncodeToString [a, b] =
      [enc6 (v div 262144), enc6 (v div 4096), enc6 (v div 64), CHR ''='']"
    by (simp add: v_def x_def y_def Let_def)
  have p: "v div 262144 mod 64 = x div 4"
    and q: "v div 4096 mod 64 = x mod 4 * 16 + y div 16"
    and r: "v div 64 mod 64 = y mod 16 * 4"
    unfolding v_def using s1 [OF lt] s2 [OF lt] s3 [OF lt] by simp_all
  show ?case
    unfolding enc decode_pad1 p q r tail2 [OF lt(2)]
    by (simp add: x_def y_def)
next
  case (4 a b c rest)
  define x y z :: nat where "x = of_char a" and "y = of_char b" and "z = of_char c"
  define v where "v = x * 65536 + y * 256 + z"
  have lt: "x < 256" "y < 256" "z < 256" by (simp_all add: x_def y_def z_def)
  have enc: "EncodeToString (a # b # c # rest) =
      enc6 (v div 262144) # enc6 (v div 4096) # enc6 (v div 64) # enc6 v # EncodeToString rest"
    by (simp add: v_def x_def y_def z_def Let_def)
  have val: "v div 262144 mod 64 * 262144 + v div 4096 mod 64 * 4096 + v div 64 mod 64 * 64 + v mod 64 = v"
    unfolding v_def s1 [OF lt] s2 [OF lt] s3 [OF lt] s4 [OF lt] by (rule regroup)
  have "char_of (v div 65536) = char_of x"
    unfolding v_def using bytes_back(1) [OF lt] by simp
  moreover have "char_of (v div 256) = char_of (v div 256 mod 256)"
    by (simp only: char_of_mod_256)
  moreover have "char_of v = char_of (v mod 256)"
    by (simp only: char_of_mod_256)
  ultimately have bk: "char_of (v div 65536) = a" "char_of (v div 256) = b" "char_of v = c"
    unfolding v_def bytes_back(2) [OF lt] bytes_back(3) [OF lt]
    by (simp_all add: x_def y_def z_def)
  show ?case
    unfolding enc decode_full_group val using "4.IH" by (simp add: bk)
qed

subsection \<open>Splitting at a separator\<close>

text \<open>
  \<open>Split\<close> yields one piece more than there are separators; two pieces are the text
  before and the text after the only separator.
\<close>

lemma Split_not_Nil: "Split s sep \<noteq> []"
proof (induction s)
  case Nil
  show ?case by simp
next
  case (Cons c cs)
  then show ?case by (cases "Split cs sep") auto
qed

lemma length_Split: "length (Split s sep) = Suc (count_list s sep)"
proof (induction s)
  case Nil
  show ?case by simp
next
  case (Cons c cs)
  obtain p ps where "Split cs sep = p # ps"
    using Split_not_Nil [of cs sep] by (cases "Split cs sep") auto
  with Cons show ?case by auto
qed

lemma Split_single: "Split s sep = [a] \<Longrightarrow> s = a \<and> sep \<notin> set a"
  by (induction s arbitrary: a) (auto simp: Split_not_Nil split: list.splits if_splits)

lemma Split_pair: "Split s sep = [a, b] \<Longrightarrow> s = a @ sep # b \<and> sep \<notin> set a \<and> sep \<notin> set b"
proof (induction s arbitrary: a)
  case Nil
  then show ?case by simp
next
  case (Cons c cs)
  show ?case
  proof (cases "c = sep")
    case True
    with Cons.prems have "a = []" "Split cs sep = [b]" by simp_all
    with True Split_single [of cs sep b] show ?thesis by simp
  next
    case False
    with Cons.prems obtain p where p: "Split cs sep = [p, b]" "a = c # p"
      by (auto split: list.splits)
    with Cons.IH [of p] False show ?thesis by simp
  qed
qed

lemma Split_one_sep:
  assumes "sep \<notin> set a" "sep \<notin> set b"
  shows "Split (a @ sep # b) sep = [a, b]"
proof -
  have single: "sep \<notin> set t \<Longrightarrow> Split t sep = [t]" for t
    by (induction t) auto
  from assms(1) show ?thesis
    by (induction a) (auto simp: single [OF assms(2)])
qed

subsection \<open>The header loop\<close>

lemma copyHeaders_other:
  "k \<notin> fst ` set hs \<Longrightarrow> fst (copyHeaders hs headers has) k = headers k"
proof (induction hs arbitrary: headers has)
  case Nil
  show ?case by simp
next
  case (Cons kv rest)
  obtain k' v' where kv: "kv = (k', v')" by (cases kv)
  from Cons.prems kv have "k \<noteq> k'" "k \<notin> fst ` set rest" by auto
  then show ?case using Cons.IH by (simp add: kv)
qed

lemma copyHeaders_copied:
  "distinct (map fst hs) \<Longrightarrow> (k, v) \<in> set hs \<Longrightarrow> fst (copyHeaders hs headers has) k = Some v"
proof (induction hs arbitrary: headers has)
  case Nil
  then show ?case by simp
next
  case (Cons kv rest)
  obtain k' v' where kv: "kv = (k', v')" by (cases kv)
  show ?case
  proof (cases "(k, v) = (k', v')")
    case True
    with Cons.prems kv have "k \<notin> fst ` set rest" by auto
    with True kv show ?thesis by (simp add: copyHeaders_other)
  next
    case False
    with Cons.prems kv have "(k, v) \<in> set rest" "distinct (map fst rest)" by auto
    with Cons.IH kv show ?thesis by simp
  qed
qed

lemma copyHeaders_flag:
  "snd (copyHeaders hs headers has) \<longleftrightarrow> has \<or> (\<exists>k \<in> fst ` set hs. EqualFold k ''Message-ID'')"
proof (induction hs arbitrary: headers has)
  case Nil
  show ?case by simp
next
  case (Cons kv rest)
  obtain k' v' where kv: "kv = (k', v')" by (cases kv)
  show ?case unfolding kv copyHeaders.simps Cons.IH by auto
qed

lemma copyHeaders_dom:
  "dom (fst (copyHeaders hs headers has)) = dom headers \<union> fst ` set hs"
proof (induction hs arbitrary: headers has)
  case Nil
  show ?case by simp
next
  case (Cons kv rest)
  obtain k' v' where kv: "kv = (k', v')" by (cases kv)
  show ?case unfolding kv copyHeaders.simps Cons.IH by auto
qed

lemma EqualFold_MessageID: "EqualFold ''Message-ID'' ''Message-ID''"
  by (simp add: asciiFold_def)

section \<open>Properties of the client\<close>

subsection \<open>The attachment loops and the payload\<close>

lemma appendAttachments_ok:
  "\<forall>(n, r) \<in> set atts. \<not> isl (prepareAttachment env n r) \<Longrightarrow>
   appendAttachments env what atts acc =
     Inr (acc @ map (\<lambda>(n, r). projr (prepareAttachment env n r)) atts)"
proof (induction atts arbitrary: acc)
  case Nil
  show ?case by simp
next
  case (Cons a atts)
  obtain n r where a: "a = (n, r)" by (cases a)
  from Cons.prems a obtain att where att: "prepareAttachment env n r = Inr att"
    by (cases "prepareAttachment env n r") auto
  from Cons.prems have "\<forall>(n, r) \<in> set atts. \<not> isl (prepareAttachment env n r)" by simp
  from Cons.IH [OF this] show ?case by (simp add: a att)
qed

lemma appendAttachments_fails:
  "\<exists>(n, r) \<in> set atts. isl (prepareAttachment env n r) \<Longrightarrow>
   \<exists>n r e. (n, r) \<in> set atts \<and> prepareAttachment env n r = Inl e \<and>
     appendAttachments env what atts acc =
       Inl (''failed to prepare '' @ what @ '' '' @ n @ '': '' @ e)"
proof (induction atts arbitrary: acc)
  case Nil
  then show ?case by simp
next
  case (Cons a atts)
  obtain n r where a: "a = (n, r)" by (cases a)
  show ?case
  proof (cases "prepareAttachment env n r")
    case (Inl e)
    then show ?thesis unfolding a by (intro exI [of _ n] exI [of _ r] exI [of _ e]) simp
  next
    case (Inr att)
    with Cons.prems a have "\<exists>(n, r) \<in> set atts. isl (prepareAttachment env n r)" by auto
    from Cons.IH [OF this, of "acc @ [att]"] obtain n' r' e where
      "(n', r') \<in> set atts" "prepareAttachment env n' r' = Inl e"
      "appendAttachments env what atts (acc @ [att]) =
         Inl (''failed to prepare '' @ what @ '' '' @ n' @ '': '' @ e)"
      by blast
    then show ?thesis unfolding a
      by (intro exI [of _ n'] exI [of _ r'] exI [of _ e]) (simp add: Inr)
  qed
qed

lemma appendAttachments_Inl:
  assumes "appendAttachments env what atts acc = Inl txt"
  shows "\<exists>(n, r) \<in> set atts. isl (prepareAttachment env n r)"
proof (rule ccontr)
  assume "\<not> (\<exists>(n, r) \<in> set atts. isl (prepareAttachment env n r))"
  then have "\<forall>(n, r) \<in> set atts. \<not> isl (prepareAttachment env n r)" by auto
  from appendAttachments_ok [OF this] assms show False by simp
qed

lemma buildPayload_unfold:
  "buildPayload env m =
     (case appendAttachments env ''attachment'' (Attachments m) [] of
        Inl err \<Rightarrow> Inl err
      | Inr atts \<Rightarrow>
          (case appendAttachments env ''inline attachment'' (InlineAttachments m) atts of
             Inl err \<Rightarrow> Inl err
           | Inr atts' \<Rightarrow>
               Inr \<lparr>pFrom = addressString env (From m),
                    pTo = addressesToStrings env (To m) True,
                    pCc = (if length (Cc m) > 0 then addressesToStrings env (Cc m) True else []),
                    pBcc = (if length (Bcc m) > 0 then addressesToStrings env (Bcc m) True else []),
                    pSubject = Subject m,
                    pHTML = HTML m,
                    pText = (if Text m = [] then
                               (case html2Text env (HTML m) of Inr plain \<Rightarrow> plain | Inl err \<Rightarrow> [])
                             else Text m),
                    pHeaders = payloadHeaders env m,
                    pAttachments = atts'\<rparr>))"
  by (simp add: buildPayload_def Let_def split: sum.splits)

lemma buildPayload_Inl:
  assumes "buildPayload env m = Inl txt"
  shows "\<exists>(n, r) \<in> set (Attachments m @ InlineAttachments m). isl (prepareAttachment env n r)"
proof (cases "appendAttachments env ''attachment'' (Attachments m) []")
  case (Inl e)
  from appendAttachments_Inl [OF this] show ?thesis by auto
next
  case (Inr atts)
  with assms obtain e where
    "appendAttachments env ''inline attachment'' (InlineAttachments m) atts = Inl e"
    by (auto simp: buildPayload_unfold split: sum.splits)
  from appendAttachments_Inl [OF this] show ?thesis by auto
qed

lemma buildPayload_Inr:
  assumes "buildPayload env m = Inr p"
  shows "pHeaders p = payloadHeaders env m"
    and "pText p = (if Text m = [] then
                      (case html2Text env (HTML m) of Inr plain \<Rightarrow> plain | Inl err \<Rightarrow> [])
                    else Text m)"
  using assms by (auto simp: buildPayload_unfold split: sum.splits)

lemma buildPayload_fails:
  assumes "\<exists>(n, r) \<in> set (Attachments m @ InlineAttachments m). isl (prepareAttachment env n r)"
  shows "\<exists>n r e what. (n, r) \<in> set (Attachments m @ InlineAttachments m) \<and>
           prepareAttachment env n r = Inl e \<and>
           buildPayload env m = Inl (''failed to prepare '' @ what @ '' '' @ n @ '': '' @ e)"
proof (cases "\<exists>(n, r) \<in> set (Attachments m). isl (prepareAttachment env n r)")
  case True
  from appendAttachments_fails [OF this, of "''attachment''" "[]"] obtain n r e where
    "(n, r) \<in> set (Attachments m)" "prepareAttachment env n r = Inl e"
    "appendAttachments env ''attachment'' (Attachments m) [] =
       Inl (''failed to prepare '' @ ''attachment'' @ '' '' @ n @ '': '' @ e)"
    by blast
  then show ?thesis
    by (intro exI [of _ n] exI [of _ r] exI [of _ e] exI [of _ "''attachment''"])
       (simp add: buildPayload_unfold)
next
  case False
  then have ok: "\<forall>(n, r) \<in> set (Attachments m). \<not> isl (prepareAttachment env n r)" by auto
  from False assms have "\<exists>(n, r) \<in> set (InlineAttachments m). isl (prepareAttachment env n r)"
    by auto
  from appendAttachments_fails [OF this, of "''inline attachment''"] obtain n r e where
    "(n, r) \<in> set (InlineAttachments m)" "prepareAttachment env n r = Inl e"
    "appendAttachments env ''inline attachment'' (InlineAttachments m)
       ([] @ map (\<lambda>(n, r). projr (prepareAttachment env n r)) (Attachments m)) =
       Inl (''failed to prepare '' @ ''inline attachment'' @ '' '' @ n @ '': '' @ e)"
    by blast
  then show ?thesis
    by (intro exI [of _ n] exI [of _ r] exI [of _ e] exI [of _ "''inline attachment''"])
       (simp add: buildPayload_unfold appendAttachments_ok [OF ok])
qed

subsection \<open>The observer chain\<close>

lemma Trigger_forwarded:
  "forwarded hs e = Some e' \<Longrightarrow> Trigger hs e terminal w = terminal e' w"
  by (induction hs arbitrary: e) (auto split: handlerResult.splits)

lemma Trigger_returns:
  "forwarded pre e = Some e' \<Longrightarrow> h e' = Return r \<Longrightarrow>
   Trigger (pre @ h # post) e terminal w = (r, w)"
  by (induction pre arbitrary: e) (auto split: handlerResult.splits)

lemma Send_terminal:
  "terminalMessage c m = Some m' \<Longrightarrow> Send env c m w = send env c m' w"
  by (auto simp: terminalMessage_def Send_def Trigger_forwarded split: option.splits)

lemma prepareAttachment_fails_iff:
  "isl (prepareAttachment env name data) \<longleftrightarrow> streamFails env data"
  by (auto simp: prepareAttachment_def streamFails_def ReadAll_def split: sum.splits option.splits)

lemma prepareAttachment_ok:
  assumes "\<not> streamFails env data"
  shows "\<exists>r mimeType content.
           detectReaderMimeType env data = Inr (r, mimeType) \<and> ReadAll r = (content, None) \<and>
           prepareAttachment env name data =
             Inr \<lparr>Filename = name, Content = EncodeToString content, ContentType = mimeType\<rparr>"
  using assms
  by (auto simp: prepareAttachment_def streamFails_def ReadAll_def split: sum.splits option.splits)

subsection \<open>From \<open>send\<close> to the response\<close>

lemma send_transmits:
  "APIKey c \<noteq> [] \<Longrightarrow> buildPayload env m = Inr p \<Longrightarrow> send env c m w = transmit env c p w"
  by (simp add: send_def)

lemma transmit_response:
  assumes "jsonMarshal env p = Inr js"
    and "NewRequest env ''POST'' resendAPIEndpoint js = Inr req"
    and "clientDo env (setHeaders c req) = Inr resp"
  shows "transmit env c p w = (checkResponse env resp, w @ [setHeaders c req])"
  using assms by (simp add: transmit_def)

subsection \<open>The header block\<close>

lemma payloadHeaders_eq:
  "payloadHeaders env m =
     (let headers = fst (copyHeaders (Headers m) Map.empty False) in
      if Headers m \<noteq> [] \<and> \<not> (\<exists>(k, v) \<in> set (Headers m). EqualFold k ''Message-ID'') \<and>
         count_list (Address (From m)) CHR ''@'' = 1
      then headers(''Message-ID'' \<mapsto>
             ''<'' @ PseudorandomString env 15 @ ''@'' @ Split (Address (From m)) CHR ''@'' ! 1 @ ''>'')
      else headers)"
proof -
  obtain headers has where c: "copyHeaders (Headers m) Map.empty False = (headers, has)"
    by (cases "copyHeaders (Headers m) Map.empty False")
  have "has \<longleftrightarrow> (\<exists>k \<in> fst ` set (Headers m). EqualFold k ''Message-ID'')"
    using copyHeaders_flag [of "Headers m" Map.empty False] by (simp add: c)
  also have "\<dots> \<longleftrightarrow> (\<exists>(k, v) \<in> set (Headers m). EqualFold k ''Message-ID'')"
    by force
  finally have has: "has \<longleftrightarrow> (\<exists>(k, v) \<in> set (Headers m). EqualFold k ''Message-ID'')" .
  have two: "length (Split (Address (From m)) CHR ''@'') = 2
               \<longleftrightarrow> count_list (Address (From m)) CHR ''@'' = 1"
    by (simp add: length_Split)
  show ?thesis
  proof (cases "Headers m = []")
    case True
    then show ?thesis by (simp add: payloadHeaders_def)
  next
    case False
    then show ?thesis
      unfolding payloadHeaders_def c Let_def two has [symmetric] by simp
  qed
qed

subsection \<open>Facts about the examples\<close>

lemma exMessage_payload: "buildPayload exEnv exMessage = Inr exPayload"
  by (simp add: buildPayload_unfold exEnv_def exMessage_def exPayload_def exAddress_def
      payloadHeaders_def)

lemma exMessage_json: "jsonMarshal exEnv exPayload = Inr exJson"
  by (simp add: exEnv_def exPayload_def exJson_def)

lemma exMessage_request: "NewRequest exEnv ''POST'' resendAPIEndpoint exJson = Inr exRequest"
  by (simp add: exEnv_def exRequest_def)

lemma fmt_d_401: "fmt_d 401 = ''401''"
  by (simp add: fmt_d_def decimal.simps digit_def)

lemma X_Custom_Header_not_MessageID: "\<not> EqualFold ''X-Custom-Header'' ''Message-ID''"
  by (simp add: asciiFold_def)

lemma buildPayload_no_attachments:
  "Attachments m = [] \<Longrightarrow> InlineAttachments m = [] \<Longrightarrow> \<exists>p. buildPayload env m = Inr p"
  by (simp add: buildPayload_unfold)

section \<open>The claims\<close>

subsection \<open>Missing credentials and the observer chain\<close>




text \<open>
  Claim C3. If the observers before \<open>h\<close> all forward and \<open>h\<close> returns \<open>r\<close> without
  forwarding, then \<open>Send\<close> returns \<open>r\<close> and the world is unchanged: no request is
  issued. Without a hook, and with a hook that has no observer, \<open>Send\<close> is \<open>send\<close>.
\<close>

theorem Send_observer_returns:
  "(onSend c = Some (pre @ h # post) \<longrightarrow> forwarded pre \<lparr>Message = m\<rparr> = Some e \<longrightarrow>
      h e = Return r \<longrightarrow> Send env c m w = (r, w)) \<and>
   (onSend c = None \<or> onSend c = Some [] \<longrightarrow> Send env c m w = send env c m w)"
  by (auto simp: Send_def Trigger_returns)

theorem Send_observer_returns_witness:
  "onSend exBlocked = Some ([tagSubject] @ blockAll # []) \<and>
   forwarded [tagSubject] \<lparr>Message = exMessage\<rparr>
     = Some \<lparr>Message = exMessage\<lparr>Subject := ''[test] S''\<rparr>\<rparr> \<and>
   blockAll \<lparr>Message = exMessage\<lparr>Subject := ''[test] S''\<rparr>\<rparr> = Return (Some ''sending is disabled'') \<and>
   Send exEnv exBlocked exMessage [] = (Some ''sending is disabled'', []) \<and>
   onSend exClient = None \<and>
   Send exEnv exClient exMessage [] = send exEnv exClient exMessage []"
proof -
  have a: "onSend exBlocked = Some ([tagSubject] @ blockAll # [])"
    by (simp add: exBlocked_def)
  have b: "forwarded [tagSubject] \<lparr>Message = exMessage\<rparr>
             = Some \<lparr>Message = exMessage\<lparr>Subject := ''[test] S''\<rparr>\<rparr>"
    by (simp add: tagSubject_def exMessage_def)
  have c: "blockAll \<lparr>Message = exMessage\<lparr>Subject := ''[test] S''\<rparr>\<rparr>
             = Return (Some ''sending is disabled'')"
    by (simp add: blockAll_def)
  have d: "onSend exClient = None" by (simp add: exClient_def)
  from Send_observer_returns [of exBlocked "[tagSubject]" blockAll "[]" exMessage
        "\<lparr>Message = exMessage\<lparr>Subject := ''[test] S''\<rparr>\<rparr>" "Some ''sending is disabled''" exEnv "[]"]
    Send_observer_returns [of exClient "[]" blockAll "[]" exMessage _ _ exEnv "[]"]
    a b c d
  show ?thesis by simp
qed

text \<open>
  Claim C10. With an empty API key and an observer \<open>h\<close> that returns \<open>r\<close> without
  forwarding, \<open>Send\<close> returns \<open>r\<close>, whereas the transmission routine, had it been
  reached with the event \<open>h\<close> saw, would have returned the missing-key error.
\<close>

theorem Send_without_key_observer_result:
  assumes "APIKey c = []"
    and "onSend c = Some (pre @ h # post)"
    and "forwarded pre \<lparr>Message = m\<rparr> = Some e"
    and "h e = Return r"
  shows "Send env c m w = (r, w) \<and>
         send env c (Message e) w = (Some ''resend API key is required'', w)"
  using assms by (simp add: Send_def Trigger_returns send_def)

theorem Send_without_key_observer_result_witness:
  "APIKey exNoKeyBlocked = [] \<and>
   onSend exNoKeyBlocked = Some ([tagSubject] @ blockAll # []) \<and>
   forwarded [tagSubject] \<lparr>Message = exMessage\<rparr>
     = Some \<lparr>Message = exMessage\<lparr>Subject := ''[test] S''\<rparr>\<rparr> \<and>
   blockAll \<lparr>Message = exMessage\<lparr>Subject := ''[test] S''\<rparr>\<rparr> = Return (Some ''sending is disabled'') \<and>
   Send exEnv exNoKeyBlocked exMessage [] = (Some ''sending is disabled'', []) \<and>
   send exEnv exNoKeyBlocked (exMessage\<lparr>Subject := ''[test] S''\<rparr>) []
     = (Some ''resend API key is required'', [])"
proof -
  have k: "APIKey exNoKeyBlocked = []" by (simp add: exNoKeyBlocked_def)
  have a: "onSend exNoKeyBlocked = Some ([tagSubject] @ blockAll # [])"
    by (simp add: exNoKeyBlocked_def)
  have b: "forwarded [tagSubject] \<lparr>Message = exMessage\<rparr>
             = Some \<lparr>Message = exMessage\<lparr>Subject := ''[test] S''\<rparr>\<rparr>"
    by (simp add: tagSubject_def exMessage_def)
  have c: "blockAll \<lparr>Message = exMessage\<lparr>Subject := ''[test] S''\<rparr>\<rparr>
             = Return (Some ''sending is disabled'')"
    by (simp add: blockAll_def)
  from Send_without_key_observer_result [OF k a b c, of exEnv "[]"] k a b c
  show ?thesis by simp
qed

subsection \<open>The response\<close>

text \<open>
  Claim C4. Let a call of \<open>Send\<close> reach the transmission routine with a non-empty key,
  build and serialise its payload and receive the response \<open>resp\<close>. If the status
  code is in the range of 200 to 299, \<open>Send\<close> returns \<open>nil\<close> whatever the body is.
  Otherwise it returns an error whose text contains the status code in decimal and,
  when the body decodes to the provider's error structure with a non-empty message,
  that message, and the raw body in every other case.
\<close>

theorem Send_response:
  assumes "terminalMessage c m = Some m'"
    and "APIKey c \<noteq> []"
    and "buildPayload env m' = Inr p"
    and "jsonMarshal env p = Inr js"
    and "NewRequest env ''POST'' resendAPIEndpoint js = Inr req"
    and "clientDo env (setHeaders c req) = Inr resp"
  shows "(200 \<le> StatusCode resp \<and> StatusCode resp < 300 \<longrightarrow> fst (Send env c m w) = None) \<and>
         (\<not> (200 \<le> StatusCode resp \<and> StatusCode resp < 300) \<longrightarrow>
            (\<exists>txt. fst (Send env c m w) = Some txt \<and>
               sublist (fmt_d (StatusCode resp)) txt \<and>
               sublist (case jsonUnmarshal env (readerData (respBody resp)) of
                          Inr errResp \<Rightarrow>
                            if errMessage errResp \<noteq> [] then errMessage errResp
                            else readerData (respBody resp)
                        | Inl err \<Rightarrow> readerData (respBody resp)) txt))"
proof -
  have "Send env c m w = (checkResponse env resp, w @ [setHeaders c req])"
    using assms by (simp add: Send_terminal send_transmits transmit_response)
  then have res: "fst (Send env c m w) = checkResponse env resp" by simp
  have code: "sublist (fmt_d n) (apiError n detail)" for n detail
    unfolding apiError_def by (rule sublist_appendI)
  have "sublist detail ((''resend API error ('' @ fmt_d n @ ''): '') @ detail)" for n detail
    by (rule sublist_append_leftI)
  then have detail: "sublist detail (apiError n detail)" for n detail
    by (simp add: apiError_def)
  show ?thesis
    unfolding res checkResponse_def ReadAll_def Let_def
    by (auto simp: code detail split: sum.splits)
qed

theorem Send_response_witness:
  "terminalMessage exInvalidKey exMessage = Some exMessage \<and>
   APIKey exInvalidKey \<noteq> [] \<and>
   buildPayload exEnv exMessage = Inr exPayload \<and>
   jsonMarshal exEnv exPayload = Inr exJson \<and>
   NewRequest exEnv ''POST'' resendAPIEndpoint exJson = Inr exRequest \<and>
   clientDo exEnv (setHeaders exInvalidKey exRequest)
     = Inr \<lparr>StatusCode = 401, respBody = Reader exUnauthorized None\<rparr> \<and>
   (\<exists>txt. fst (Send exEnv exInvalidKey exMessage []) = Some txt \<and>
      sublist ''401'' txt \<and> sublist ''Invalid API key'' txt) \<and>
   terminalMessage exClient exMessage = Some exMessage \<and>
   APIKey exClient \<noteq> [] \<and>
   clientDo exEnv (setHeaders exClient exRequest)
     = Inr \<lparr>StatusCode = 200, respBody = Reader ''{\"id\": \"test-id\"}'' None\<rparr> \<and>
   fst (Send exEnv exClient exMessage []) = None"
proof -
  have t1: "terminalMessage exInvalidKey exMessage = Some exMessage"
    by (simp add: terminalMessage_def exInvalidKey_def)
  have k1: "APIKey exInvalidKey \<noteq> []" by (simp add: exInvalidKey_def)
  have d1: "clientDo exEnv (setHeaders exInvalidKey exRequest)
              = Inr \<lparr>StatusCode = 401, respBody = Reader exUnauthorized None\<rparr>"
    by (simp add: exEnv_def setHeaders_def exInvalidKey_def exRequest_def)
  have t2: "terminalMessage exClient exMessage = Some exMessage"
    by (simp add: terminalMessage_def exClient_def)
  have k2: "APIKey exClient \<noteq> []" by (simp add: exClient_def)
  have d2: "clientDo exEnv (setHeaders exClient exRequest)
              = Inr \<lparr>StatusCode = 200, respBody = Reader ''{\"id\": \"test-id\"}'' None\<rparr>"
    by (simp add: exEnv_def setHeaders_def exClient_def exRequest_def)
  have u: "jsonUnmarshal exEnv exUnauthorized
             = Inr \<lparr>errStatusCode = 401, errMessage = ''Invalid API key'', errName = ''unauthorized''\<rparr>"
    by (simp add: exEnv_def)
  from Send_response [OF t1 k1 exMessage_payload exMessage_json exMessage_request d1, of "[]"]
  have r1: "\<exists>txt. fst (Send exEnv exInvalidKey exMessage []) = Some txt \<and>
      sublist ''401'' txt \<and> sublist ''Invalid API key'' txt"
    by (simp add: fmt_d_401 u)
  from Send_response [OF t2 k2 exMessage_payload exMessage_json exMessage_request d2, of "[]"]
  have r2: "fst (Send exEnv exClient exMessage []) = None"
    by simp
  from t1 k1 d1 t2 k2 d2 r1 r2 exMessage_payload exMessage_json exMessage_request
  show ?thesis by simp
qed

subsection \<open>Attachments\<close>

text \<open>
  Claim C5. Let a call of \<open>Send\<close> reach the transmission routine with a non-empty key,
  so that the attachment streams are read. If reading or sniffing fails for some regular
  or inline attachment, then \<open>Send\<close> returns a non-nil error, the world is unchanged
  (no request is issued, so no payload and no partial attachment list is transmitted),
  and the error text contains the file name of an attachment whose stream failed.
\<close>

theorem Send_attachment_failure:
  assumes "terminalMessage c m = Some m'"
    and "APIKey c \<noteq> []"
    and "\<exists>(n, r) \<in> set (Attachments m' @ InlineAttachments m'). streamFails env r"
  shows "\<exists>n r txt. (n, r) \<in> set (Attachments m' @ InlineAttachments m') \<and>
           streamFails env r \<and> Send env c m w = (Some txt, w) \<and> sublist n txt"
proof -
  from assms(3) have
    "\<exists>(n, r) \<in> set (Attachments m' @ InlineAttachments m'). isl (prepareAttachment env n r)"
    by (simp add: prepareAttachment_fails_iff)
  from buildPayload_fails [OF this] obtain n r e what where
    nr: "(n, r) \<in> set (Attachments m' @ InlineAttachments m')"
    and e: "prepareAttachment env n r = Inl e"
    and b: "buildPayload env m' = Inl (''failed to prepare '' @ what @ '' '' @ n @ '': '' @ e)"
    by blast
  from e have f: "streamFails env r"
    using prepareAttachment_fails_iff [of env n r] by simp
  have s: "Send env c m w = (Some (''failed to prepare '' @ what @ '' '' @ n @ '': '' @ e), w)"
    using assms(1,2) b by (simp add: Send_terminal send_def)
  have "sublist n ((''failed to prepare '' @ what @ '' '') @ n @ ('': '' @ e))"
    by (rule sublist_appendI)
  then have "sublist n (''failed to prepare '' @ what @ '' '' @ n @ '': '' @ e)" by simp
  with nr f s show ?thesis by blast
qed

theorem Send_attachment_failure_witness:
  "terminalMessage exClient exBroken = Some exBroken \<and>
   APIKey exClient \<noteq> [] \<and>
   (''logo.png'', Reader ''PN'' (Some ''unexpected EOF'')) \<in> set (Attachments exBroken @ InlineAttachments exBroken) \<and>
   streamFails exEnv (Reader ''PN'' (Some ''unexpected EOF'')) \<and>
   (\<exists>txt. Send exEnv exClient exBroken [] = (Some txt, []) \<and> sublist ''logo.png'' txt)"
proof -
  have t: "terminalMessage exClient exBroken = Some exBroken"
    by (simp add: terminalMessage_def exClient_def)
  have k: "APIKey exClient \<noteq> []" by (simp add: exClient_def)
  have i: "(''logo.png'', Reader ''PN'' (Some ''unexpected EOF''))
             \<in> set (Attachments exBroken @ InlineAttachments exBroken)"
    by (simp add: exBroken_def)
  have f: "streamFails exEnv (Reader ''PN'' (Some ''unexpected EOF''))"
    by (simp add: streamFails_def exEnv_def)
  have g: "\<not> streamFails exEnv (Reader ''test content'' None)"
    by (simp add: streamFails_def exEnv_def ReadAll_def)
  from i f have "\<exists>(n, r) \<in> set (Attachments exBroken @ InlineAttachments exBroken). streamFails exEnv r"
    by blast
  from Send_attachment_failure [OF t k this, of "[]"] obtain n r errText where
    "(n, r) \<in> set (Attachments exBroken @ InlineAttachments exBroken)" "streamFails exEnv r"
    "Send exEnv exClient exBroken [] = (Some errText, [])" "sublist n errText"
    by blast
  with g have "Send exEnv exClient exBroken [] = (Some errText, [])" "sublist ''logo.png'' errText"
    by (auto simp: exBroken_def exMessage_def)
  with t k i f show ?thesis by blast
qed

text \<open>
  Claim C6. If neither sniffing nor reading fails for any regular or inline attachment,
  the payload is built, its attachment list has one entry for each regular and each
  inline attachment (the regular ones first, each group in the order of the loop), and
  every entry carries the file name of its attachment and a content that is valid
  standard base64 and decodes to exactly the bytes read from the attachment's stream.
\<close>

theorem payload_attachments:
  assumes "\<forall>(n, r) \<in> set (Attachments m @ InlineAttachments m). \<not> streamFails env r"
  shows "\<exists>p. buildPayload env m = Inr p \<and>
           length (pAttachments p) = length (Attachments m) + length (InlineAttachments m) \<and>
           list_all2
             (\<lambda>(n, r) a. Filename a = n \<and>
                (\<exists>r' mimeType content.
                   detectReaderMimeType env r = Inr (r', mimeType) \<and>
                   ReadAll r' = (content, None) \<and>
                   DecodeString (Content a) = Some content))
             (Attachments m @ InlineAttachments m) (pAttachments p)"
proof -
  define f where "f = (\<lambda>(n, r). projr (prepareAttachment env n r))"
  from assms have
    ok1: "\<forall>(n, r) \<in> set (Attachments m). \<not> isl (prepareAttachment env n r)" and
    ok2: "\<forall>(n, r) \<in> set (InlineAttachments m). \<not> isl (prepareAttachment env n r)"
    by (auto simp: prepareAttachment_fails_iff)
  obtain p where p: "buildPayload env m = Inr p"
    and atts: "pAttachments p = map f (Attachments m @ InlineAttachments m)"
    by (simp add: buildPayload_unfold appendAttachments_ok [OF ok1] appendAttachments_ok [OF ok2]
        f_def)
  have each: "Filename (f (n, r)) = n \<and>
      (\<exists>r' mimeType content.
         detectReaderMimeType env r = Inr (r', mimeType) \<and>
         ReadAll r' = (content, None) \<and>
         DecodeString (Content (f (n, r))) = Some content)"
    if "(n, r) \<in> set (Attachments m @ InlineAttachments m)" for n r
  proof -
    from that assms have "\<not> streamFails env r" by auto
    from prepareAttachment_ok [OF this, of n] obtain r' mimeType content where
      "detectReaderMimeType env r = Inr (r', mimeType)" "ReadAll r' = (content, None)"
      "prepareAttachment env n r =
         Inr \<lparr>Filename = n, Content = EncodeToString content, ContentType = mimeType\<rparr>"
      by blast
    then show ?thesis
      by (simp add: f_def DecodeString_EncodeToString)
  qed
  have "list_all2
          (\<lambda>(n, r) a. Filename a = n \<and>
             (\<exists>r' mimeType content.
                detectReaderMimeType env r = Inr (r', mimeType) \<and>
                ReadAll r' = (content, None) \<and>
                DecodeString (Content a) = Some content))
          (Attachments m @ InlineAttachments m) (map f (Attachments m @ InlineAttachments m))"
    unfolding list_all2_map2 list_all2_same using each by auto
  with p atts show ?thesis by auto
qed

theorem payload_attachments_witness:
  "Attachments exAttached @ InlineAttachments exAttached
     = [(''test.txt'', Reader ''test content'' None), (''logo.png'', Reader ''PNG'' None)] \<and>
   \<not> streamFails exEnv (Reader ''test content'' None) \<and>
   \<not> streamFails exEnv (Reader ''PNG'' None) \<and>
   (\<exists>p. buildPayload exEnv exAttached = Inr p \<and>
      length (pAttachments p) = 2 \<and>
      list_all2
        (\<lambda>(n, r) a. Filename a = n \<and>
           (\<exists>r' mimeType content.
              detectReaderMimeType exEnv r = Inr (r', mimeType) \<and>
              ReadAll r' = (content, None) \<and>
              DecodeString (Content a) = Some content))
        [(''test.txt'', Reader ''test content'' None), (''logo.png'', Reader ''PNG'' None)]
        (pAttachments p))"
proof -
  have h: "\<forall>(n, r) \<in> set (Attachments exAttached @ InlineAttachments exAttached).
             \<not> streamFails exEnv r"
    by (simp add: exAttached_def exMessage_def streamFails_def exEnv_def ReadAll_def)
  have a: "Attachments exAttached @ InlineAttachments exAttached
             = [(''test.txt'', Reader ''test content'' None), (''logo.png'', Reader ''PNG'' None)]"
    by (simp add: exAttached_def)
  have l: "length (Attachments exAttached) + length (InlineAttachments exAttached) = 2"
    by (simp add: exAttached_def)
  have s1: "\<not> streamFails exEnv (Reader ''test content'' None)"
    and s2: "\<not> streamFails exEnv (Reader ''PNG'' None)"
    using h unfolding a by simp_all
  from payload_attachments [OF h] a s1 s2 show ?thesis
    unfolding a l by blast
qed

subsection \<open>The text body\<close>

text \<open>
  Claim C7. In the payload that \<open>send\<close> builds, the text field is \<open>Text\<close> unchanged
  when \<open>Text\<close> is not empty; otherwise it is the plain text derived from \<open>HTML\<close> when
  the conversion succeeds and empty when it fails. The payload fails to be built only
  when an attachment stream fails, so a failed conversion is never the reason for an
  error: with a non-empty key \<open>send\<close> goes on to transmit the payload.
\<close>

theorem payload_text:
  "(case buildPayload env m of
      Inr p \<Rightarrow>
        pText p = (if Text m \<noteq> [] then Text m
                   else (case html2Text env (HTML m) of Inr plain \<Rightarrow> plain | Inl err \<Rightarrow> [])) \<and>
        (APIKey c \<noteq> [] \<longrightarrow> send env c m w = transmit env c p w)
    | Inl err \<Rightarrow>
        (\<exists>(n, r) \<in> set (Attachments m @ InlineAttachments m). streamFails env r))"
proof (cases "buildPayload env m")
  case (Inl err)
  from buildPayload_Inl [OF this] show ?thesis
    by (simp add: Inl prepareAttachment_fails_iff)
next
  case (Inr p)
  from buildPayload_Inr(2) [OF this] show ?thesis by (simp add: Inr send_def)
qed

theorem payload_text_witness:
  "(case buildPayload exEnv exPlain of
      Inr p \<Rightarrow> pText p = ''Plain text content''
    | Inl err \<Rightarrow> False) \<and>
   (case buildPayload exEnv exMessage of
      Inr p \<Rightarrow> pText p = ''Hi''
    | Inl err \<Rightarrow> False) \<and>
   html2Text exEnv (HTML exNoAt) = Inl ''html2text: unsupported markup'' \<and>
   APIKey exClient \<noteq> [] \<and>
   (case buildPayload exEnv exNoAt of
      Inr p \<Rightarrow> pText p = [] \<and> send exEnv exClient exNoAt [] = transmit exEnv exClient p []
    | Inl err \<Rightarrow> False)"
proof -
  obtain p1 where p1: "buildPayload exEnv exPlain = Inr p1"
    using buildPayload_no_attachments [of exPlain exEnv] by (auto simp: exPlain_def exMessage_def)
  obtain p2 where p2: "buildPayload exEnv exMessage = Inr p2"
    using buildPayload_no_attachments [of exMessage exEnv] by (auto simp: exMessage_def)
  obtain p3 where p3: "buildPayload exEnv exNoAt = Inr p3"
    using buildPayload_no_attachments [of exNoAt exEnv]
    by (auto simp: exNoAt_def exWithHeader_def exMessage_def)
  have k: "APIKey exClient \<noteq> []" by (simp add: exClient_def)
  have h: "html2Text exEnv (HTML exNoAt) = Inl ''html2text: unsupported markup''"
    by (simp add: exNoAt_def exEnv_def)
  have t1: "Text exPlain = ''Plain text content''" by (simp add: exPlain_def)
  have t2: "Text exMessage = []" "html2Text exEnv (HTML exMessage) = Inr ''Hi''"
    by (simp_all add: exMessage_def exEnv_def)
  have t3: "Text exNoAt = []" by (simp add: exNoAt_def exWithHeader_def exMessage_def)
  from payload_text [where env = exEnv and m = exPlain and c = exClient and w = "[]"] have r1: "pText p1 = ''Plain text content''"
    unfolding p1 by (simp add: t1)
  from payload_text [where env = exEnv and m = exMessage and c = exClient and w = "[]"] have r2: "pText p2 = ''Hi''"
    unfolding p2 by (simp add: t2)
  from payload_text [where env = exEnv and m = exNoAt and c = exClient and w = "[]"] k
  have r3: "pText p3 = [] \<and> send exEnv exClient exNoAt [] = transmit exEnv exClient p3 []"
    unfolding p3 by (simp add: t3 h)
  from r1 r2 r3 h k show ?thesis unfolding p1 p2 p3 by simp
qed

subsection \<open>The Message-ID header\<close>

text \<open>
  With at least one custom header, none of them a Message-ID under any spelling, and
  exactly one \<open>@\<close> in the address of the sender, with \<open>domain\<close> the part after it,
  the header block adds a Message-ID header of the form \<open><token@domain>\<close> to the
  payload headers.
\<close>

theorem MessageID_domain:
  assumes "Headers m \<noteq> []"
    and "\<forall>(k, v) \<in> set (Headers m). \<not> EqualFold k ''Message-ID''"
    and "Address (From m) = localPart @ CHR ''@'' # domain"
    and "CHR ''@'' \<notin> set localPart"
    and "CHR ''@'' \<notin> set domain"
  shows "\<exists>token. payloadHeaders env m ''Message-ID'' = Some (''<'' @ token @ ''@'' @ domain @ ''>'') \<and>
           (\<forall>p. buildPayload env m = Inr p \<longrightarrow>
              pHeaders p ''Message-ID'' = Some (''<'' @ token @ ''@'' @ domain @ ''>''))"
proof -
  have sp: "Split (Address (From m)) CHR ''@'' = [localPart, domain]"
    unfolding assms(3) using assms(4,5) by (rule Split_one_sep)
  have "length (Split (Address (From m)) CHR ''@'') = 2" by (simp add: sp)
  then have one: "count_list (Address (From m)) CHR ''@'' = 1" by (simp add: length_Split)
  have no: "\<not> (\<exists>(k, v) \<in> set (Headers m). EqualFold k ''Message-ID'')"
    using assms(2) by auto
  have "payloadHeaders env m ''Message-ID''
          = Some (''<'' @ PseudorandomString env 15 @ ''@'' @ domain @ ''>'')"
    using assms(1) one no by (simp add: payloadHeaders_eq sp)
  then show ?thesis
    by (intro exI [of _ "PseudorandomString env 15"]) (auto dest: buildPayload_Inr(1))
qed

theorem MessageID_domain_witness:
  "Headers exWithHeader \<noteq> [] \<and>
   map fst (Headers exWithHeader) = [''X-Custom-Header''] \<and>
   \<not> EqualFold ''X-Custom-Header'' ''Message-ID'' \<and>
   Address (From exWithHeader) = ''test'' @ CHR ''@'' # ''example.com'' \<and>
   CHR ''@'' \<notin> set ''test'' \<and> CHR ''@'' \<notin> set ''example.com'' \<and>
   (\<exists>token. payloadHeaders exEnv exWithHeader ''Message-ID''
      = Some (''<'' @ token @ ''@'' @ ''example.com'' @ ''>''))"
proof -
  have a: "Headers exWithHeader \<noteq> []" by (simp add: exWithHeader_def)
  have b: "\<forall>(k, v) \<in> set (Headers exWithHeader). \<not> EqualFold k ''Message-ID''"
    by (simp add: exWithHeader_def X_Custom_Header_not_MessageID)
  have c: "Address (From exWithHeader) = ''test'' @ CHR ''@'' # ''example.com''"
    by (simp add: exWithHeader_def exMessage_def)
  have d: "CHR ''@'' \<notin> set ''test''" by simp
  have e: "CHR ''@'' \<notin> set ''example.com''" by simp
  have f: "map fst (Headers exWithHeader) = [''X-Custom-Header'']"
    by (simp add: exWithHeader_def)
  from MessageID_domain [OF a b c d e, of exEnv] a f X_Custom_Header_not_MessageID c d e
  show ?thesis by blast
qed

text \<open>
  Claim C2. A message without a Message-ID header is to get a synthesized one whose
  domain is the part of the sender's address after the \<open>@\<close>, also when its header map
  is empty. The code does not do this for the message of the specification's scenario,
  which has no headers at all and a sender address with one \<open>@\<close>: the lines that add
  the default Message-ID sit inside the block guarded by \<open>len(m.Headers) > 0\<close>, so they
  are skipped and the payload has no headers.
\<close>

theorem no_MessageID_without_headers:
  "Headers exMessage = [] \<and>
   Address (From exMessage) = ''test@example.com'' \<and>
   buildPayload exEnv exMessage = Inr exPayload \<and>
   pHeaders exPayload ''Message-ID'' = None \<and>
   dom (pHeaders exPayload) = {}"
  by (simp add: exMessage_payload) (simp add: exMessage_def exPayload_def)

text \<open>
  Claim C8, as amended. The headers of the caller are copied into the payload under
  their own keys, unchanged. When \<open>send\<close> adds a Message-ID (the header map is not
  empty, no key equals "Message-ID" case-insensitively, and the address of the sender
  has exactly one \<open>@\<close>), its value is \<open><token@domain>\<close>, where the token is what
  \<open>security.PseudorandomString\<close> returns for the length 15 and the domain is the part
  of the address after the \<open>@\<close>; it is the only key added.
\<close>

theorem MessageID_form_and_headers_copied:
  "(distinct (map fst (Headers m)) \<longrightarrow>
      (\<forall>(k, v) \<in> set (Headers m). payloadHeaders env m k = Some v)) \<and>
   (Headers m \<noteq> [] \<and> (\<forall>(k, v) \<in> set (Headers m). \<not> EqualFold k ''Message-ID'') \<and>
    Address (From m) = localPart @ CHR ''@'' # domain \<and>
    CHR ''@'' \<notin> set localPart \<and> CHR ''@'' \<notin> set domain \<longrightarrow>
      payloadHeaders env m ''Message-ID''
        = Some (''<'' @ PseudorandomString env 15 @ ''@'' @ domain @ ''>'') \<and>
      dom (payloadHeaders env m) = insert ''Message-ID'' (fst ` set (Headers m))) \<and>
   (\<forall>p. buildPayload env m = Inr p \<longrightarrow> pHeaders p = payloadHeaders env m)"
proof (intro conjI impI allI)
  assume dist: "distinct (map fst (Headers m))"
  show "\<forall>(k, v) \<in> set (Headers m). payloadHeaders env m k = Some v"
  proof (clarify)
    fix k v
    assume kv: "(k, v) \<in> set (Headers m)"
    have copied: "fst (copyHeaders (Headers m) Map.empty False) k = Some v"
      using dist kv by (rule copyHeaders_copied)
    show "payloadHeaders env m k = Some v"
    proof (cases "\<exists>(k, v) \<in> set (Headers m). EqualFold k ''Message-ID''")
      case True
      then show ?thesis using copied by (simp add: payloadHeaders_eq)
    next
      case False
      with kv have "\<not> EqualFold k ''Message-ID''" by auto
      with EqualFold_MessageID have "k \<noteq> ''Message-ID''" by auto
      then show ?thesis using copied by (simp add: payloadHeaders_eq Let_def)
    qed
  qed
next
  assume syn: "Headers m \<noteq> [] \<and> (\<forall>(k, v) \<in> set (Headers m). \<not> EqualFold k ''Message-ID'') \<and>
    Address (From m) = localPart @ CHR ''@'' # domain \<and>
    CHR ''@'' \<notin> set localPart \<and> CHR ''@'' \<notin> set domain"
  then have sp: "Split (Address (From m)) CHR ''@'' = [localPart, domain]"
    by (simp add: Split_one_sep)
  have "length (Split (Address (From m)) CHR ''@'') = 2" by (simp add: sp)
  then have one: "count_list (Address (From m)) CHR ''@'' = 1" by (simp add: length_Split)
  have no: "\<not> (\<exists>(k, v) \<in> set (Headers m). EqualFold k ''Message-ID'')"
    using syn by auto
  from syn have ne: "Headers m \<noteq> []" by simp
  have eq: "payloadHeaders env m =
      (fst (copyHeaders (Headers m) Map.empty False))
        (''Message-ID'' \<mapsto> ''<'' @ PseudorandomString env 15 @ ''@'' @ domain @ ''>'')"
    using ne one no by (simp add: payloadHeaders_eq sp)
  show "payloadHeaders env m ''Message-ID''
          = Some (''<'' @ PseudorandomString env 15 @ ''@'' @ domain @ ''>'')"
    unfolding eq by simp
  show "dom (payloadHeaders env m) = insert ''Message-ID'' (fst ` set (Headers m))"
    unfolding eq by (simp add: copyHeaders_dom)
next
  fix p
  assume "buildPayload env m = Inr p"
  then show "pHeaders p = payloadHeaders env m" by (rule buildPayload_Inr(1))
qed

theorem MessageID_form_and_headers_copied_witness:
  "distinct (map fst (Headers exWithHeader)) \<and>
   Headers exWithHeader \<noteq> [] \<and>
   map fst (Headers exWithHeader) = [''X-Custom-Header''] \<and>
   \<not> EqualFold ''X-Custom-Header'' ''Message-ID'' \<and>
   Address (From exWithHeader) = ''test'' @ CHR ''@'' # ''example.com'' \<and>
   payloadHeaders exEnv exWithHeader ''X-Custom-Header'' = Some ''custom-value'' \<and>
   payloadHeaders exEnv exWithHeader ''Message-ID''
     = Some (''<'' @ PseudorandomString exEnv 15 @ ''@'' @ ''example.com'' @ ''>'') \<and>
   dom (payloadHeaders exEnv exWithHeader) = {''Message-ID'', ''X-Custom-Header''}"
proof -
  have f: "Headers exWithHeader = [(''X-Custom-Header'', ''custom-value'')]"
    by (simp add: exWithHeader_def)
  have a: "distinct (map fst (Headers exWithHeader))" unfolding f by simp
  have b: "Headers exWithHeader \<noteq> []" unfolding f by simp
  have c: "\<forall>(k, v) \<in> set (Headers exWithHeader). \<not> EqualFold k ''Message-ID''"
    unfolding f by (simp add: X_Custom_Header_not_MessageID)
  have d: "Address (From exWithHeader) = ''test'' @ CHR ''@'' # ''example.com''"
    by (simp add: exWithHeader_def exMessage_def)
  have e1: "CHR ''@'' \<notin> set ''test''" by simp
  have e2: "CHR ''@'' \<notin> set ''example.com''" by simp
  note T = MessageID_form_and_headers_copied
    [where m = exWithHeader and env = exEnv and localPart = "''test''" and domain = "''example.com''"]
  from T have "distinct (map fst (Headers exWithHeader)) \<longrightarrow>
      (\<forall>(k, v) \<in> set (Headers exWithHeader). payloadHeaders exEnv exWithHeader k = Some v)"
    by (rule conjunct1)
  from this a have "\<forall>(k, v) \<in> set (Headers exWithHeader). payloadHeaders exEnv exWithHeader k = Some v"
    by (rule mp)
  then have r1: "payloadHeaders exEnv exWithHeader ''X-Custom-Header'' = Some ''custom-value''"
    unfolding f by simp
  from b c d e1 e2 have prem:
    "Headers exWithHeader \<noteq> [] \<and>
     (\<forall>(k, v) \<in> set (Headers exWithHeader). \<not> EqualFold k ''Message-ID'') \<and>
     Address (From exWithHeader) = ''test'' @ CHR ''@'' # ''example.com'' \<and>
     CHR ''@'' \<notin> set ''test'' \<and> CHR ''@'' \<notin> set ''example.com''"
    by (intro conjI)
  from T have "Headers exWithHeader \<noteq> [] \<and>
     (\<forall>(k, v) \<in> set (Headers exWithHeader). \<not> EqualFold k ''Message-ID'') \<and>
     Address (From exWithHeader) = ''test'' @ CHR ''@'' # ''example.com'' \<and>
     CHR ''@'' \<notin> set ''test'' \<and> CHR ''@'' \<notin> set ''example.com'' \<longrightarrow>
     payloadHeaders exEnv exWithHeader ''Message-ID''
       = Some (''<'' @ PseudorandomString exEnv 15 @ ''@'' @ ''example.com'' @ ''>'') \<and>
     dom (payloadHeaders exEnv exWithHeader)
       = insert ''Message-ID'' (fst ` set (Headers exWithHeader))"
    by (rule conjunct2 [THEN conjunct1])
  from this prem have r2:
    "payloadHeaders exEnv exWithHeader ''Message-ID''
       = Some (''<'' @ PseudorandomString exEnv 15 @ ''@'' @ ''example.com'' @ ''>'') \<and>
     dom (payloadHeaders exEnv exWithHeader)
       = insert ''Message-ID'' (fst ` set (Headers exWithHeader))"
    by (rule mp)
  have s: "insert ''Message-ID'' (fst ` set (Headers exWithHeader))
             = {''Message-ID'', ''X-Custom-Header''}"
    unfolding f by simp
  have g: "map fst (Headers exWithHeader) = [''X-Custom-Header'']"
    unfolding f by simp
  from a b g X_Custom_Header_not_MessageID d r1 r2 [unfolded s] show ?thesis
    by (intro conjI) (elim conjE, assumption)+
qed

text \<open>
  Claim C8 as stated fails in the size of the token: \<open>send\<close> asks the generator for 15
  characters, not 20, so the token of the example run has 15 bytes and cannot carry 20
  bytes of entropy.
\<close>

theorem MessageID_token_has_15_bytes:
  "payloadHeaders exEnv exWithHeader ''Message-ID''
     = Some (''<'' @ PseudorandomString exEnv 15 @ ''@example.com>'') \<and>
   PseudorandomString exEnv 15 = ''k3XbT9qLm2VzR7c'' \<and>
   length (PseudorandomString exEnv 15) = 15 \<and>
   PseudorandomString exEnv 15 \<noteq> PseudorandomString exEnv 20"
  by (simp add: payloadHeaders_def exWithHeader_def exMessage_def exEnv_def
      X_Custom_Header_not_MessageID)

text \<open>
  Claim C9. If the address of the sender does not contain exactly one \<open>@\<close> and no
  header key equals "Message-ID" case-insensitively, then the payload has no Message-ID
  header under any spelling, its header keys are exactly the caller's, and the only
  way the payload can fail to be built is a failing attachment stream: the missing
  Message-ID is not an error, and with a non-empty key \<open>send\<close> goes on to transmit.
\<close>

theorem no_MessageID_without_domain:
  assumes "count_list (Address (From m)) CHR ''@'' \<noteq> 1"
    and "\<forall>(k, v) \<in> set (Headers m). \<not> EqualFold k ''Message-ID''"
  shows "(case buildPayload env m of
            Inr p \<Rightarrow>
              pHeaders p ''Message-ID'' = None \<and>
              (\<forall>k. EqualFold k ''Message-ID'' \<longrightarrow> pHeaders p k = None) \<and>
              dom (pHeaders p) = fst ` set (Headers m) \<and>
              (APIKey c \<noteq> [] \<longrightarrow> send env c m w = transmit env c p w)
          | Inl err \<Rightarrow>
              (\<exists>(n, r) \<in> set (Attachments m @ InlineAttachments m). streamFails env r))"
proof (cases "buildPayload env m")
  case (Inl err)
  from buildPayload_Inl [OF this] show ?thesis
    by (simp add: Inl prepareAttachment_fails_iff)
next
  case (Inr p)
  have hs: "pHeaders p = fst (copyHeaders (Headers m) Map.empty False)"
    using buildPayload_Inr(1) [OF Inr] assms(1) by (simp add: payloadHeaders_eq)
  have none: "pHeaders p k = None" if "EqualFold k ''Message-ID''" for k
  proof -
    from that assms(2) have "k \<notin> fst ` set (Headers m)" by auto
    then show ?thesis unfolding hs by (simp add: copyHeaders_other)
  qed
  have "dom (pHeaders p) = fst ` set (Headers m)"
    unfolding hs by (simp add: copyHeaders_dom)
  with none none [OF EqualFold_MessageID] show ?thesis by (simp add: Inr send_def)
qed

theorem no_MessageID_without_domain_witness:
  "count_list (Address (From exTwoAts)) CHR ''@'' = 2 \<and>
   count_list (Address (From exNoAt)) CHR ''@'' = 0 \<and>
   map fst (Headers exTwoAts) = [''X-Custom-Header''] \<and>
   map fst (Headers exNoAt) = [''X-Custom-Header''] \<and>
   \<not> EqualFold ''X-Custom-Header'' ''Message-ID'' \<and>
   APIKey exClient \<noteq> [] \<and>
   (case buildPayload exEnv exTwoAts of
      Inr p \<Rightarrow> pHeaders p ''Message-ID'' = None \<and> dom (pHeaders p) = {''X-Custom-Header''} \<and>
        send exEnv exClient exTwoAts [] = transmit exEnv exClient p []
    | Inl err \<Rightarrow> False) \<and>
   (case buildPayload exEnv exNoAt of
      Inr p \<Rightarrow> pHeaders p ''Message-ID'' = None \<and> dom (pHeaders p) = {''X-Custom-Header''} \<and>
        send exEnv exClient exNoAt [] = transmit exEnv exClient p []
    | Inl err \<Rightarrow> False)"
proof -
  have c2: "count_list (Address (From exTwoAts)) CHR ''@'' = 2"
    by (simp add: exTwoAts_def)
  have c0: "count_list (Address (From exNoAt)) CHR ''@'' = 0"
    by (simp add: exNoAt_def)
  have hs: "Headers exTwoAts = [(''X-Custom-Header'', ''custom-value'')]"
    "Headers exNoAt = [(''X-Custom-Header'', ''custom-value'')]"
    by (simp_all add: exTwoAts_def exNoAt_def exWithHeader_def)
  have h2: "\<forall>(k, v) \<in> set (Headers exTwoAts). \<not> EqualFold k ''Message-ID''"
    unfolding hs by (simp add: X_Custom_Header_not_MessageID)
  have h0: "\<forall>(k, v) \<in> set (Headers exNoAt). \<not> EqualFold k ''Message-ID''"
    unfolding hs by (simp add: X_Custom_Header_not_MessageID)
  have n2: "count_list (Address (From exTwoAts)) CHR ''@'' \<noteq> 1" using c2 by simp
  have n0: "count_list (Address (From exNoAt)) CHR ''@'' \<noteq> 1" using c0 by simp
  have k: "APIKey exClient \<noteq> []" by (simp add: exClient_def)
  obtain p2 where p2: "buildPayload exEnv exTwoAts = Inr p2"
    using buildPayload_no_attachments [of exTwoAts exEnv]
    by (auto simp: exTwoAts_def exWithHeader_def exMessage_def)
  obtain p0 where p0: "buildPayload exEnv exNoAt = Inr p0"
    using buildPayload_no_attachments [of exNoAt exEnv]
    by (auto simp: exNoAt_def exWithHeader_def exMessage_def)
  from no_MessageID_without_domain [OF n2 h2, where env = exEnv and c = exClient and w = "[]"] k
  have r2: "pHeaders p2 ''Message-ID'' = None \<and> dom (pHeaders p2) = {''X-Custom-Header''} \<and>
        send exEnv exClient exTwoAts [] = transmit exEnv exClient p2 []"
    unfolding p2 hs by simp
  from no_MessageID_without_domain [OF n0 h0, where env = exEnv and c = exClient and w = "[]"] k
  have r0: "pHeaders p0 ''Message-ID'' = None \<and> dom (pHeaders p0) = {''X-Custom-Header''} \<and>
        send exEnv exClient exNoAt [] = transmit exEnv exClient p0 []"
    unfolding p0 hs by simp
  have m2: "map fst (Headers exTwoAts) = [''X-Custom-Header'']"
    and m0: "map fst (Headers exNoAt) = [''X-Custom-Header'']"
    unfolding hs by simp_all
  from c2 c0 m2 m0 X_Custom_Header_not_MessageID k r2 r0 show ?thesis
    unfolding p2 p0 by simp
qed

end
